theory Spec2Isabelle
  imports Main "HOL-Library.Word"
begin

unbundle bit_operations_syntax

section \<open>Error reporting\<close>

text \<open>
  \<^verbatim>\<open>ereport(elevel, (errcode(...), errmsg(...), errdetail(...)))\<close> appends one entry to
  the server log. At level \<^verbatim>\<open>FATAL\<close> it then ends the process and never comes back to
  its caller; at level \<^verbatim>\<open>LOG\<close> it returns. Only the two levels and the three SQLSTATE
  classes that \<^verbatim>\<open>be-secure.c\<close> passes are listed.
\<close>

datatype elevel = LOG | FATAL

datatype sqlstate =
    ERRCODE_CONFIG_FILE_ERROR
  | ERRCODE_ADMIN_SHUTDOWN
  | errcode_for_file_access

record report =
  level :: elevel
  code :: sqlstate
  errmsg :: string
  errdetail :: "string option"

text \<open>
  What a call does in the end: it hands a value back to its caller, or the process is
  gone (\<^verbatim>\<open>ereport(FATAL)\<close>), or an assertion trapped, or a callee left by a non-local
  exit.
\<close>

datatype 'a outcome =
    Returned 'a
  | ProcExit
  | TrapAssert
  | NonLocalExit

section \<open>The private key file check\<close>

text \<open>
  \<^verbatim>\<open>struct stat\<close>, the two fields the check reads. \<^verbatim>\<open>mode_t\<close> and \<^verbatim>\<open>uid_t\<close> are
  unsigned 32-bit integers.
\<close>

record stat_buf =
  st_mode :: "32 word"
  st_uid :: "32 word"

text \<open>
  The mode bits of \<^verbatim>\<open><sys/stat.h>\<close>, written in decimal (octal in the comments).
\<close>

definition S_IFMT :: "32 word" where "S_IFMT = 61440"     \<comment> \<open>0170000\<close>
definition S_IFREG :: "32 word" where "S_IFREG = 32768"   \<comment> \<open>0100000\<close>
definition S_IRWXG :: "32 word" where "S_IRWXG = 56"      \<comment> \<open>0070\<close>
definition S_IWGRP :: "32 word" where "S_IWGRP = 16"      \<comment> \<open>0020\<close>
definition S_IXGRP :: "32 word" where "S_IXGRP = 8"       \<comment> \<open>0010\<close>
definition S_IRWXO :: "32 word" where "S_IRWXO = 7"       \<comment> \<open>0007\<close>

definition S_ISREG :: "32 word \<Rightarrow> bool" where
  "S_ISREG m \<longleftrightarrow> m AND S_IFMT = S_IFREG"


text \<open>
  What the check reads from outside: whether the build is for \<^verbatim>\<open>WIN32\<close> or
  \<^verbatim>\<open>__CYGWIN__\<close> (the two \<^verbatim>\<open>#if !defined(WIN32) && !defined(__CYGWIN__)\<close> blocks),
  the answer of \<^verbatim>\<open>stat\<close> for a path (\<open>Inl\<close> the text that \<^verbatim>\<open>%m\<close> prints for the
  \<^verbatim>\<open>errno\<close> it failed with, \<open>Inr\<close> the filled buffer), and \<^verbatim>\<open>geteuid()\<close>.
\<close>

record key_env =
  windows_build :: bool
  stat :: "string \<Rightarrow> string + stat_buf"
  geteuid :: "32 word"

text \<open>
  The process state the file declares (its globals) together with the server log.
\<close>

record server_state =
  ssl_cert_file :: string
  ssl_key_file :: string
  ssl_ca_file :: string
  ssl_crl_file :: string
  ssl_dh_params_file :: string
  ssl_loaded_verify_locations :: bool
  server_log :: "report list"

text \<open>
  \<^verbatim>\<open>ereport(loglevel, ...); return v;\<close> the entry is logged; the \<^verbatim>\<open>return\<close> is reached
  only when the level is not \<^verbatim>\<open>FATAL\<close>.
\<close>

definition ereport_return ::
  "report \<Rightarrow> 'a \<Rightarrow> server_state \<Rightarrow> 'a outcome \<times> server_state" where
  "ereport_return r v s =
     (if level r = FATAL
      then (ProcExit, s\<lparr>server_log := server_log s @ [r]\<rparr>)
      else (Returned v, s\<lparr>server_log := server_log s @ [r]\<rparr>))"

text \<open>The four messages, with \<^verbatim>\<open>%s\<close> and \<^verbatim>\<open>%m\<close> filled in.\<close>

definition msg_could_not_access :: "string \<Rightarrow> string \<Rightarrow> string" where
  "msg_could_not_access path m =
     ''could not access private key file \"'' @ path @ ''\": '' @ m"

definition msg_not_regular :: "string \<Rightarrow> string" where
  "msg_not_regular path =
     ''private key file \"'' @ path @ ''\" is not a regular file''"

definition msg_bad_owner :: "string \<Rightarrow> string" where
  "msg_bad_owner path =
     ''private key file \"'' @ path @ ''\" must be owned by the database user or root''"

definition msg_group_world :: "string \<Rightarrow> string" where
  "msg_group_world path =
     ''private key file \"'' @ path @ ''\" has group or world access''"

definition detail_group_world :: string where
  "detail_group_world =
     ''File must have permissions u=rw (0600) or less if owned by the database user, or permissions u=rw,g=r (0640) or less if owned by root.''"

definition check_ssl_key_file_permissions ::
  "key_env \<Rightarrow> string \<Rightarrow> bool \<Rightarrow> server_state \<Rightarrow> bool outcome \<times> server_state" where
  "check_ssl_key_file_permissions env path isServerStart s =
     (let loglevel = (if isServerStart then FATAL else LOG) in
      case stat env path of
        Inl m \<Rightarrow>
          ereport_return
            \<lparr>level = loglevel, code = errcode_for_file_access,
             errmsg = msg_could_not_access path m, errdetail = None\<rparr> False s
      | Inr buf \<Rightarrow>
          if \<not> S_ISREG (st_mode buf) then
            ereport_return
              \<lparr>level = loglevel, code = ERRCODE_CONFIG_FILE_ERROR,
               errmsg = msg_not_regular path, errdetail = None\<rparr> False s
          else if \<not> windows_build env \<and>
                  st_uid buf \<noteq> geteuid env \<and> st_uid buf \<noteq> 0 then
            ereport_return
              \<lparr>level = loglevel, code = ERRCODE_CONFIG_FILE_ERROR,
               errmsg = msg_bad_owner path, errdetail = None\<rparr> False s
          else if \<not> windows_build env \<and>
                  ((st_uid buf = geteuid env \<and>
                      st_mode buf AND (S_IRWXG OR S_IRWXO) \<noteq> 0) \<or>
                   (st_uid buf = 0 \<and>
                      st_mode buf AND (S_IWGRP OR S_IXGRP OR S_IRWXO) \<noteq> 0)) then
            ereport_return
              \<lparr>level = loglevel, code = ERRCODE_CONFIG_FILE_ERROR,
               errmsg = msg_group_world path,
               errdetail = Some detail_group_world\<rparr> False s
          else (Returned True, s))"

section \<open>The transport dispatcher\<close>

text \<open>
  \<^verbatim>\<open>Port\<close>, the fields \<^verbatim>\<open>secure_read\<close> and \<^verbatim>\<open>secure_write\<close> look at. A buffer
  is the address it starts at; \<^verbatim>\<open>size_t\<close> lengths are naturals; an \<^verbatim>\<open>ssize_t\<close>
  result is an integer (it is compared with 0 and handed on, never computed with).
\<close>

record Port =
  sock :: int
  ssl_in_use :: bool
  noblock :: bool

type_synonym ptr = nat
type_synonym size_t = nat
type_synonym ssize_t = int

text \<open>
  Everything the two functions take from outside this file.
  \<^item> The build: \<^verbatim>\<open>USE_SSL\<close>, and whether \<^verbatim>\<open>Assert\<close> is compiled in.
  \<^item> The flag macros of \<^verbatim>\<open>storage/latch.h\<close> and the two \<^verbatim>\<open>errno\<close> codes: their
    values are not given in this file, so they are parameters.
  \<^item> The answers of the callees, one per pass through the label \<^verbatim>\<open>retry\<close> (the first
    pass is number 0): \<^verbatim>\<open>recv\<close> and \<^verbatim>\<open>send\<close> give the result and \<^verbatim>\<open>errno\<close> as it
    stands after the call; \<^verbatim>\<open>be_tls_read\<close> and \<^verbatim>\<open>be_tls_write\<close> give in addition what
    they store through \<^verbatim>\<open>waitfor\<close> (\<open>None\<close>: nothing stored);
    \<^verbatim>\<open>WaitEventSetWait\<close> gives the \<^verbatim>\<open>events\<close> field of the event it fills in;
    \<^verbatim>\<open>ProcessClientReadInterrupt\<close> and \<^verbatim>\<open>ProcessClientWriteInterrupt\<close> either come
    back (\<open>True\<close>) or leave by a non-local exit, as a pending termination request makes
    them do.
\<close>

record io_env =
  USE_SSL :: bool
  USE_ASSERT_CHECKING :: bool
  WL_LATCH_SET :: "32 word"
  WL_SOCKET_READABLE :: "32 word"
  WL_SOCKET_WRITEABLE :: "32 word"
  WL_POSTMASTER_DEATH :: "32 word"
  EWOULDBLOCK :: int
  EAGAIN :: int
  recv_result :: "nat \<Rightarrow> ssize_t \<times> int"
  send_result :: "nat \<Rightarrow> ssize_t \<times> int"
  tls_read_result :: "nat \<Rightarrow> ssize_t \<times> int \<times> 32 word option"
  tls_write_result :: "nat \<Rightarrow> ssize_t \<times> int \<times> 32 word option"
  wait_result :: "nat \<Rightarrow> 32 word"
  interrupt_returns :: "nat \<Rightarrow> bool \<Rightarrow> bool"

datatype wait_event_info = WAIT_EVENT_CLIENT_READ | WAIT_EVENT_CLIENT_WRITE

text \<open>
  The trace of a call: every call out of the file, in order, with its arguments and,
  where the caller reads it, its answer (result and \<^verbatim>\<open>errno\<close> for the transport,
  \<^verbatim>\<open>events\<close> for the wait).
\<close>

datatype action =
    Recv int ptr size_t ssize_t int
  | Send int ptr size_t ssize_t int
  | Be_tls_read ptr size_t ssize_t int "32 word option"
  | Be_tls_write ptr size_t ssize_t int "32 word option"
  | ModifyWaitEvent "32 word"
  | WaitEventSetWait wait_event_info "32 word"
  | ResetLatch
  | ProcessClientReadInterrupt bool
  | ProcessClientWriteInterrupt bool
  | Ereport report

text \<open>
  One pass from the label \<^verbatim>\<open>retry\<close>: it ends in \<^verbatim>\<open>goto retry\<close> or it ends the call.
\<close>

datatype step = Retry "action list" | Done "ssize_t outcome" "action list"

text \<open>The local variables after the transport call of a pass.\<close>

record attempt =
  n :: ssize_t
  errno :: int
  waitfor :: "32 word"
  call :: action

definition secure_raw_read :: "io_env \<Rightarrow> Port \<Rightarrow> ptr \<Rightarrow> size_t \<Rightarrow> nat \<Rightarrow> ssize_t \<times> int \<times> action" where
  "secure_raw_read env port p len i =
     (case recv_result env i of
        (r, e) \<Rightarrow> (r, e, Recv (sock port) p len r e))"

definition secure_raw_write :: "io_env \<Rightarrow> Port \<Rightarrow> ptr \<Rightarrow> size_t \<Rightarrow> nat \<Rightarrow> ssize_t \<times> int \<times> action" where
  "secure_raw_write env port p len i =
     (case send_result env i of
        (r, e) \<Rightarrow> (r, e, Send (sock port) p len r e))"

text \<open>
  \<^verbatim>\<open>secure_read\<close>, from \<^verbatim>\<open>retry:\<close> to the test. With \<^verbatim>\<open>USE_SSL\<close> the variable
  \<^verbatim>\<open>waitfor\<close> is cleared before \<^verbatim>\<open>be_tls_read\<close> gets its address; on the plain path it
  is assigned after the call.
\<close>

definition read_attempt :: "io_env \<Rightarrow> Port \<Rightarrow> ptr \<Rightarrow> size_t \<Rightarrow> nat \<Rightarrow> attempt" where
  "read_attempt env port p len i =
     (if USE_SSL env \<and> ssl_in_use port then
        (case tls_read_result env i of
           (r, e, w) \<Rightarrow>
             \<lparr>n = r, errno = e,
              waitfor = (case w of None \<Rightarrow> 0 | Some d \<Rightarrow> d),
              call = Be_tls_read p len r e w\<rparr>)
      else
        (case secure_raw_read env port p len i of
           (r, e, a) \<Rightarrow>
             \<lparr>n = r, errno = e, waitfor = WL_SOCKET_READABLE env, call = a\<rparr>))"

text \<open>\<^verbatim>\<open>secure_write\<close>, the same stretch; \<^verbatim>\<open>waitfor = 0\<close> comes first in every build.\<close>

definition write_attempt :: "io_env \<Rightarrow> Port \<Rightarrow> ptr \<Rightarrow> size_t \<Rightarrow> nat \<Rightarrow> attempt" where
  "write_attempt env port p len i =
     (if USE_SSL env \<and> ssl_in_use port then
        (case tls_write_result env i of
           (r, e, w) \<Rightarrow>
             \<lparr>n = r, errno = e,
              waitfor = (case w of None \<Rightarrow> 0 | Some d \<Rightarrow> d),
              call = Be_tls_write p len r e w\<rparr>)
      else
        (case secure_raw_write env port p len i of
           (r, e, a) \<Rightarrow>
             \<lparr>n = r, errno = e, waitfor = WL_SOCKET_WRITEABLE env, call = a\<rparr>))"

definition postmaster_exit :: report where
  "postmaster_exit =
     \<lparr>level = FATAL, code = ERRCODE_ADMIN_SHUTDOWN,
      errmsg = ''terminating connection due to unexpected postmaster exit'',
      errdetail = None\<rparr>"

text \<open>
  The test of \<^verbatim>\<open>secure_read\<close> and \<^verbatim>\<open>secure_write\<close>:
  \<^verbatim>\<open>n < 0 && !port->noblock && (errno == EWOULDBLOCK || errno == EAGAIN)\<close>.
\<close>

definition must_wait :: "io_env \<Rightarrow> Port \<Rightarrow> attempt \<Rightarrow> bool" where
  "must_wait env port a \<longleftrightarrow>
     n a < 0 \<and> \<not> noblock port \<and> (errno a = EWOULDBLOCK env \<or> errno a = EAGAIN env)"

text \<open>
  The block under the test, in \<^verbatim>\<open>secure_read\<close>: \<^verbatim>\<open>Assert(waitfor)\<close>, the two calls on
  the wait set, the postmaster check, the latch check, \<^verbatim>\<open>goto retry\<close>.
\<close>

definition read_wait :: "io_env \<Rightarrow> attempt \<Rightarrow> nat \<Rightarrow> step" where
  "read_wait env a i =
     (if USE_ASSERT_CHECKING env \<and> waitfor a = 0 then Done TrapAssert [call a]
      else if wait_result env i AND WL_POSTMASTER_DEATH env \<noteq> 0 then
        Done ProcExit
          [call a, ModifyWaitEvent (waitfor a),
           WaitEventSetWait WAIT_EVENT_CLIENT_READ (wait_result env i),
           Ereport postmaster_exit]
      else if wait_result env i AND WL_LATCH_SET env \<noteq> 0 then
        (if interrupt_returns env i True then
           Retry
             [call a, ModifyWaitEvent (waitfor a),
              WaitEventSetWait WAIT_EVENT_CLIENT_READ (wait_result env i),
              ResetLatch, ProcessClientReadInterrupt True]
         else
           Done NonLocalExit
             [call a, ModifyWaitEvent (waitfor a),
              WaitEventSetWait WAIT_EVENT_CLIENT_READ (wait_result env i),
              ResetLatch, ProcessClientReadInterrupt True])
      else
        Retry
          [call a, ModifyWaitEvent (waitfor a),
           WaitEventSetWait WAIT_EVENT_CLIENT_READ (wait_result env i)])"

definition write_wait :: "io_env \<Rightarrow> attempt \<Rightarrow> nat \<Rightarrow> step" where
  "write_wait env a i =
     (if USE_ASSERT_CHECKING env \<and> waitfor a = 0 then Done TrapAssert [call a]
      else if wait_result env i AND WL_POSTMASTER_DEATH env \<noteq> 0 then
        Done ProcExit
          [call a, ModifyWaitEvent (waitfor a),
           WaitEventSetWait WAIT_EVENT_CLIENT_WRITE (wait_result env i),
           Ereport postmaster_exit]
      else if wait_result env i AND WL_LATCH_SET env \<noteq> 0 then
        (if interrupt_returns env i True then
           Retry
             [call a, ModifyWaitEvent (waitfor a),
              WaitEventSetWait WAIT_EVENT_CLIENT_WRITE (wait_result env i),
              ResetLatch, ProcessClientWriteInterrupt True]
         else
           Done NonLocalExit
             [call a, ModifyWaitEvent (waitfor a),
              WaitEventSetWait WAIT_EVENT_CLIENT_WRITE (wait_result env i),
              ResetLatch, ProcessClientWriteInterrupt True])
      else
        Retry
          [call a, ModifyWaitEvent (waitfor a),
           WaitEventSetWait WAIT_EVENT_CLIENT_WRITE (wait_result env i)])"

definition read_step :: "io_env \<Rightarrow> Port \<Rightarrow> ptr \<Rightarrow> size_t \<Rightarrow> nat \<Rightarrow> step" where
  "read_step env port p len i =
     (if must_wait env port (read_attempt env port p len i) then
        read_wait env (read_attempt env port p len i) i
      else if interrupt_returns env i False then
        Done (Returned (n (read_attempt env port p len i)))
          [call (read_attempt env port p len i), ProcessClientReadInterrupt False]
      else
        Done NonLocalExit
          [call (read_attempt env port p len i), ProcessClientReadInterrupt False])"

definition write_step :: "io_env \<Rightarrow> Port \<Rightarrow> ptr \<Rightarrow> size_t \<Rightarrow> nat \<Rightarrow> step" where
  "write_step env port p len i =
     (if must_wait env port (write_attempt env port p len i) then
        write_wait env (write_attempt env port p len i) i
      else if interrupt_returns env i False then
        Done (Returned (n (write_attempt env port p len i)))
          [call (write_attempt env port p len i), ProcessClientWriteInterrupt False]
      else
        Done NonLocalExit
          [call (write_attempt env port p len i), ProcessClientWriteInterrupt False])"

text \<open>
  \<^verbatim>\<open>retry: ... goto retry;\<close> the passes are run one after the other until one ends the
  call. A call that never leaves the loop has no result: the value is \<open>None\<close>.
\<close>

partial_function (option) retry_loop ::
  "(nat \<Rightarrow> step) \<Rightarrow> nat \<Rightarrow> action list \<Rightarrow> (ssize_t outcome \<times> action list) option" where
  "retry_loop body i tr =
     (case body i of
        Done out acts \<Rightarrow> Some (out, tr @ acts)
      | Retry acts \<Rightarrow> retry_loop body (Suc i) (tr @ acts))"

declare retry_loop.simps [code]

definition secure_read ::
  "io_env \<Rightarrow> Port \<Rightarrow> ptr \<Rightarrow> size_t \<Rightarrow> (ssize_t outcome \<times> action list) option" where
  "secure_read env port p len = retry_loop (read_step env port p len) 0 []"

definition secure_write ::
  "io_env \<Rightarrow> Port \<Rightarrow> ptr \<Rightarrow> size_t \<Rightarrow> (ssize_t outcome \<times> action list) option" where
  "secure_write env port p len = retry_loop (write_step env port p len) 0 []"

section \<open>Notions used in the statements\<close>

subsection \<open>The key file\<close>


text \<open>The owner is the effective user of the server or root.\<close>

definition owner_trusted :: "key_env \<Rightarrow> stat_buf \<Rightarrow> bool" where
  "owner_trusted env buf \<longleftrightarrow> st_uid buf = geteuid env \<or> st_uid buf = 0"

text \<open>
  The mode grants more than the owner class allows: anything for group or others when
  the server owns the file, anything but group read when root owns it.
\<close>

definition group_world_access :: "key_env \<Rightarrow> stat_buf \<Rightarrow> bool" where
  "group_world_access env buf \<longleftrightarrow>
     (st_uid buf = geteuid env \<and> st_mode buf AND (S_IRWXG OR S_IRWXO) \<noteq> 0) \<or>
     (st_uid buf = 0 \<and> st_mode buf AND (S_IWGRP OR S_IXGRP OR S_IRWXO) \<noteq> 0)"

text \<open>
  A rejection with one diagnostic: fatal when strict, logged and answered \<open>False\<close>
  otherwise. Nothing but the log changes.
\<close>

definition rejected ::
  "bool \<Rightarrow> sqlstate \<Rightarrow> string \<Rightarrow> string option \<Rightarrow> server_state \<Rightarrow> bool outcome \<times> server_state" where
  "rejected strict c m d s =
     (if strict
      then (ProcExit,
            s\<lparr>server_log := server_log s @
               [\<lparr>level = FATAL, code = c, errmsg = m, errdetail = d\<rparr>]\<rparr>)
      else (Returned False,
            s\<lparr>server_log := server_log s @
               [\<lparr>level = LOG, code = c, errmsg = m, errdetail = d\<rparr>]\<rparr>))"

subsection \<open>The dispatcher\<close>

text \<open>Both functions at once: a call is a read or a write.\<close>

datatype direction = Reading | Writing

definition secure_call ::
  "direction \<Rightarrow> io_env \<Rightarrow> Port \<Rightarrow> ptr \<Rightarrow> size_t \<Rightarrow> (ssize_t outcome \<times> action list) option" where
  "secure_call d env port p len =
     (case d of Reading \<Rightarrow> secure_read env port p len
              | Writing \<Rightarrow> secure_write env port p len)"

definition call_step :: "direction \<Rightarrow> io_env \<Rightarrow> Port \<Rightarrow> ptr \<Rightarrow> size_t \<Rightarrow> nat \<Rightarrow> step" where
  "call_step d env port p len i =
     (case d of Reading \<Rightarrow> read_step env port p len i
              | Writing \<Rightarrow> write_step env port p len i)"

definition attempt_of :: "direction \<Rightarrow> io_env \<Rightarrow> Port \<Rightarrow> ptr \<Rightarrow> size_t \<Rightarrow> nat \<Rightarrow> attempt" where
  "attempt_of d env port p len i =
     (case d of Reading \<Rightarrow> read_attempt env port p len i
              | Writing \<Rightarrow> write_attempt env port p len i)"

definition interrupt_action :: "direction \<Rightarrow> bool \<Rightarrow> action" where
  "interrupt_action d blocked =
     (case d of Reading \<Rightarrow> ProcessClientReadInterrupt blocked
              | Writing \<Rightarrow> ProcessClientWriteInterrupt blocked)"

definition wait_info :: "direction \<Rightarrow> wait_event_info" where
  "wait_info d = (case d of Reading \<Rightarrow> WAIT_EVENT_CLIENT_READ | Writing \<Rightarrow> WAIT_EVENT_CLIENT_WRITE)"

text \<open>The readiness flag that matches the call.\<close>

definition socket_direction :: "direction \<Rightarrow> io_env \<Rightarrow> 32 word" where
  "socket_direction d env =
     (case d of Reading \<Rightarrow> WL_SOCKET_READABLE env | Writing \<Rightarrow> WL_SOCKET_WRITEABLE env)"

text \<open>What the secure provider answers in pass \<open>i\<close> of the call.\<close>

definition tls_result :: "direction \<Rightarrow> io_env \<Rightarrow> nat \<Rightarrow> ssize_t \<times> int \<times> 32 word option" where
  "tls_result d env i =
     (case d of Reading \<Rightarrow> tls_read_result env i | Writing \<Rightarrow> tls_write_result env i)"

text \<open>The direction left in \<^verbatim>\<open>waitfor\<close> by a provider that stored \<open>w\<close> there.\<close>

definition reported_direction :: "32 word option \<Rightarrow> 32 word" where
  "reported_direction w = (case w of None \<Rightarrow> 0 | Some x \<Rightarrow> x)"

text \<open>The connection goes through the secure provider.\<close>

definition encrypted :: "io_env \<Rightarrow> Port \<Rightarrow> bool" where
  "encrypted env port \<longleftrightarrow> USE_SSL env \<and> ssl_in_use port"

text \<open>The transport says it would block: a negative result with one of the two codes.\<close>

definition would_block :: "io_env \<Rightarrow> attempt \<Rightarrow> bool" where
  "would_block env a \<longleftrightarrow> n a < 0 \<and> (errno a = EWOULDBLOCK env \<or> errno a = EAGAIN env)"

text \<open>An action is a call of the underlying transport.\<close>

definition transport_call :: "action \<Rightarrow> bool" where
  "transport_call c =
     (case c of Recv s q l r e \<Rightarrow> True | Send s q l r e \<Rightarrow> True
              | Be_tls_read q l r e w \<Rightarrow> True | Be_tls_write q l r e w \<Rightarrow> True
              | _ \<Rightarrow> False)"

text \<open>
  An action is the underlying operation of this very call: the function that belongs to
  the direction and to the connection, on the socket, buffer and length of the call.
\<close>

definition transport_request ::
  "direction \<Rightarrow> io_env \<Rightarrow> Port \<Rightarrow> ptr \<Rightarrow> size_t \<Rightarrow> action \<Rightarrow> bool" where
  "transport_request d env port p len c =
     (case c of
        Recv s q l r e \<Rightarrow>
          d = Reading \<and> \<not> encrypted env port \<and> s = sock port \<and> q = p \<and> l = len
      | Send s q l r e \<Rightarrow>
          d = Writing \<and> \<not> encrypted env port \<and> s = sock port \<and> q = p \<and> l = len
      | Be_tls_read q l r e w \<Rightarrow> d = Reading \<and> encrypted env port \<and> q = p \<and> l = len
      | Be_tls_write q l r e w \<Rightarrow> d = Writing \<and> encrypted env port \<and> q = p \<and> l = len
      | _ \<Rightarrow> False)"

text \<open>An action is a wait on the wait set.\<close>

definition is_wait :: "action \<Rightarrow> bool" where
  "is_wait c = (case c of WaitEventSetWait info ev \<Rightarrow> True | _ \<Rightarrow> False)"

text \<open>
  An action is a wait that came back with the latch set and the postmaster alive.
\<close>

definition latch_wake :: "io_env \<Rightarrow> action \<Rightarrow> bool" where
  "latch_wake env c =
     (case c of
        WaitEventSetWait info ev \<Rightarrow>
          ev AND WL_POSTMASTER_DEATH env = 0 \<and> ev AND WL_LATCH_SET env \<noteq> 0
      | _ \<Rightarrow> False)"

text \<open>Pass \<open>i\<close> gets as far as the wait: the test holds and the assertion does not trap.\<close>

definition reaches_wait :: "io_env \<Rightarrow> Port \<Rightarrow> attempt \<Rightarrow> bool" where
  "reaches_wait env port a \<longleftrightarrow>
     must_wait env port a \<and> \<not> (USE_ASSERT_CHECKING env \<and> waitfor a = 0)"


text \<open>The actions of a pass, whether a pass goes round again, the trace of passes \<open>i..<k\<close>.\<close>

definition acts_of :: "step \<Rightarrow> action list" where
  "acts_of st = (case st of Retry acts \<Rightarrow> acts | Done out acts \<Rightarrow> acts)"

definition is_retry :: "step \<Rightarrow> bool" where
  "is_retry st = (case st of Retry acts \<Rightarrow> True | Done out acts \<Rightarrow> False)"

definition passes :: "(nat \<Rightarrow> step) \<Rightarrow> nat \<Rightarrow> nat \<Rightarrow> action list" where
  "passes body i k = concat (map (\<lambda>j. acts_of (body j)) [i..<k])"

section \<open>Sample inputs\<close>

definition sample_files :: "string \<Rightarrow> string + stat_buf" where
  "sample_files path =
     (if path = ''/var/lib/pgsql/server.key'' then Inr \<lparr>st_mode = 33152, st_uid = 26\<rparr>
      else if path = ''/var/lib/pgsql/open.key'' then Inr \<lparr>st_mode = 33188, st_uid = 26\<rparr>
      else if path = ''/tmp/key.pem'' then Inr \<lparr>st_mode = 33184, st_uid = 26\<rparr>
      else if path = ''/etc/ssl/private/shared.key'' then Inr \<lparr>st_mode = 33184, st_uid = 0\<rparr>
      else if path = ''/etc/ssl/private/open.key'' then Inr \<lparr>st_mode = 33188, st_uid = 0\<rparr>
      else if path = ''/home/alice/alice.key'' then Inr \<lparr>st_mode = 33152, st_uid = 1000\<rparr>
      else if path = ''/etc/ssl/private'' then Inr \<lparr>st_mode = 16832, st_uid = 0\<rparr>
      else Inl ''No such file or directory'')"

definition posix_env :: key_env where
  "posix_env = \<lparr>windows_build = False, stat = sample_files, geteuid = 26\<rparr>"

definition windows_env :: key_env where
  "windows_env = \<lparr>windows_build = True, stat = sample_files, geteuid = 26\<rparr>"


definition fresh_state :: server_state where
  "fresh_state =
     \<lparr>ssl_cert_file = ''server.crt'', ssl_key_file = ''server.key'', ssl_ca_file = [],
      ssl_crl_file = [], ssl_dh_params_file = [], ssl_loaded_verify_locations = True,
      server_log = []\<rparr>"

text \<open>
  A transport that would block twice and then moves five bytes; a secure provider that
  would block twice, asking for the socket to become writeable, and then moves seven;
  a wait that comes back for the latch first and for the socket afterwards.
\<close>

definition sample_raw :: "nat \<Rightarrow> ssize_t \<times> int" where
  "sample_raw i = (if i < 2 then (- 1, 11) else (5, 0))"

definition sample_tls :: "nat \<Rightarrow> ssize_t \<times> int \<times> 32 word option" where
  "sample_tls i = (if i < 2 then (- 1, 11, Some 4) else (7, 0, None))"

definition sample_wait :: "nat \<Rightarrow> 32 word" where
  "sample_wait i = (if i = 0 then 1 else 6)"

definition sample_interrupt :: "nat \<Rightarrow> bool \<Rightarrow> bool" where
  "sample_interrupt i blocked = True"

definition sample_env :: io_env where
  "sample_env =
     \<lparr>USE_SSL = True, USE_ASSERT_CHECKING = True,
      WL_LATCH_SET = 1, WL_SOCKET_READABLE = 2, WL_SOCKET_WRITEABLE = 4,
      WL_POSTMASTER_DEATH = 16, EWOULDBLOCK = 11, EAGAIN = 11,
      recv_result = sample_raw, send_result = sample_raw,
      tls_read_result = sample_tls, tls_write_result = sample_tls,
      wait_result = sample_wait, interrupt_returns = sample_interrupt\<rparr>"

text \<open>The same, but the second wait finds the postmaster gone.\<close>

definition orphan_wait :: "nat \<Rightarrow> 32 word" where
  "orphan_wait i = (if i = 0 then 1 else 16)"

definition orphan_env :: io_env where
  "orphan_env = sample_env\<lparr>wait_result := orphan_wait\<rparr>"

definition plain_port :: Port where
  "plain_port = \<lparr>sock = 7, ssl_in_use = False, noblock = False\<rparr>"

definition tls_port :: Port where
  "tls_port = \<lparr>sock = 7, ssl_in_use = True, noblock = False\<rparr>"

definition nonblocking_port :: Port where
  "nonblocking_port = \<lparr>sock = 7, ssl_in_use = False, noblock = True\<rparr>"

section \<open>The key file check: proofs\<close>

lemma mask_group_other: "S_IRWXG OR S_IRWXO = 63"
  by (simp add: S_IRWXG_def S_IRWXO_def)

lemma mask_root: "S_IWGRP OR S_IXGRP OR S_IRWXO = 31"
  by (simp add: S_IWGRP_def S_IXGRP_def S_IRWXO_def)





text \<open>The function as a chain of rejections.\<close>

lemma check_unfold:
  "check_ssl_key_file_permissions env path strict s =
     (case stat env path of
        Inl e \<Rightarrow> rejected strict errcode_for_file_access (msg_could_not_access path e) None s
      | Inr buf \<Rightarrow>
          if \<not> S_ISREG (st_mode buf) then
            rejected strict ERRCODE_CONFIG_FILE_ERROR (msg_not_regular path) None s
          else if \<not> windows_build env \<and> \<not> owner_trusted env buf then
            rejected strict ERRCODE_CONFIG_FILE_ERROR (msg_bad_owner path) None s
          else if \<not> windows_build env \<and> group_world_access env buf then
            rejected strict ERRCODE_CONFIG_FILE_ERROR (msg_group_world path)
              (Some detail_group_world) s
          else (Returned True, s))"
  by (simp add: check_ssl_key_file_permissions_def rejected_def ereport_return_def
      owner_trusted_def group_world_access_def split: sum.splits)

lemma rejected_not_accepted: "rejected strict c m d s \<noteq> (Returned True, t)"
  by (simp add: rejected_def)















text \<open>
  C6, as the code has it. The checks run in this order and the first that fails decides
  the diagnostic: the path must resolve; it must name a regular file; the owner must be
  the server's effective user or root; the mode must grant no access to group or others
  beyond what the owner class allows. The last two are compiled only when the build is
  neither for Windows nor for Cygwin; on those builds every regular file is accepted.
  True is returned exactly when no check that is compiled in fails.
\<close>

theorem key_file_checks_in_order:
  "(stat env path = Inl e \<longrightarrow>
      check_ssl_key_file_permissions env path strict s =
        rejected strict errcode_for_file_access (msg_could_not_access path e) None s) \<and>
   (stat env path = Inr buf \<and> \<not> S_ISREG (st_mode buf) \<longrightarrow>
      check_ssl_key_file_permissions env path strict s =
        rejected strict ERRCODE_CONFIG_FILE_ERROR (msg_not_regular path) None s) \<and>
   (stat env path = Inr buf \<and> S_ISREG (st_mode buf) \<and> \<not> windows_build env \<and>
      \<not> owner_trusted env buf \<longrightarrow>
      check_ssl_key_file_permissions env path strict s =
        rejected strict ERRCODE_CONFIG_FILE_ERROR (msg_bad_owner path) None s) \<and>
   (stat env path = Inr buf \<and> S_ISREG (st_mode buf) \<and> \<not> windows_build env \<and>
      owner_trusted env buf \<and> group_world_access env buf \<longrightarrow>
      check_ssl_key_file_permissions env path strict s =
        rejected strict ERRCODE_CONFIG_FILE_ERROR (msg_group_world path)
          (Some detail_group_world) s) \<and>
   (stat env path = Inr buf \<and> S_ISREG (st_mode buf) \<and> windows_build env \<longrightarrow>
      check_ssl_key_file_permissions env path strict s = (Returned True, s)) \<and>
   (fst (check_ssl_key_file_permissions env path strict s) = Returned True \<longleftrightarrow>
      (\<exists>b. stat env path = Inr b \<and> S_ISREG (st_mode b) \<and>
         (windows_build env \<or> (owner_trusted env b \<and> \<not> group_world_access env b))))"
proof (intro conjI impI)
  show "fst (check_ssl_key_file_permissions env path strict s) = Returned True \<longleftrightarrow>
      (\<exists>b. stat env path = Inr b \<and> S_ISREG (st_mode b) \<and>
         (windows_build env \<or> (owner_trusted env b \<and> \<not> group_world_access env b)))"
    by (cases "stat env path") (auto simp add: check_unfold rejected_def)
qed (simp_all add: check_unfold)

theorem key_file_checks_in_order_witness:
  "fst (check_ssl_key_file_permissions posix_env ''/nowhere'' False fresh_state) = Returned False \<and>
   fst (check_ssl_key_file_permissions posix_env ''/etc/ssl/private'' False fresh_state) =
     Returned False \<and>
   map errmsg (server_log (snd
     (check_ssl_key_file_permissions posix_env ''/home/alice/alice.key'' False fresh_state))) =
     [msg_bad_owner ''/home/alice/alice.key''] \<and>
   map errmsg (server_log (snd
     (check_ssl_key_file_permissions posix_env ''/etc/ssl/private/open.key'' False fresh_state))) =
     [msg_group_world ''/etc/ssl/private/open.key''] \<and>
   check_ssl_key_file_permissions windows_env ''/home/alice/alice.key'' False fresh_state =
     (Returned True, fresh_state) \<and>
   fst (check_ssl_key_file_permissions posix_env ''/var/lib/pgsql/server.key'' True fresh_state) =
     Returned True"
proof -
  note ev = posix_env_def windows_env_def sample_files_def S_ISREG_def S_IFMT_def S_IFREG_def
    owner_trusted_def group_world_access_def mask_group_other mask_root rejected_def
    fresh_state_def
  have "fst (check_ssl_key_file_permissions posix_env ''/nowhere'' False fresh_state) =
      Returned False"
    using key_file_checks_in_order
      [where env = posix_env and path = "''/nowhere''" and e = "''No such file or directory''"
        and strict = False and s = fresh_state]
    by (simp add: ev)
  moreover have "fst (check_ssl_key_file_permissions posix_env ''/etc/ssl/private'' False
      fresh_state) = Returned False"
    using key_file_checks_in_order
      [where env = posix_env and path = "''/etc/ssl/private''"
        and buf = "\<lparr>st_mode = 16832, st_uid = 0\<rparr>" and strict = False
        and s = fresh_state]
    by (simp add: ev)
  moreover have "map errmsg (server_log (snd
     (check_ssl_key_file_permissions posix_env ''/home/alice/alice.key'' False fresh_state))) =
     [msg_bad_owner ''/home/alice/alice.key'']"
    using key_file_checks_in_order
      [where env = posix_env and path = "''/home/alice/alice.key''"
        and buf = "\<lparr>st_mode = 33152, st_uid = 1000\<rparr>" and strict = False
        and s = fresh_state]
    by (simp add: ev)
  moreover have "map errmsg (server_log (snd
     (check_ssl_key_file_permissions posix_env ''/etc/ssl/private/open.key'' False fresh_state))) =
     [msg_group_world ''/etc/ssl/private/open.key'']"
    using key_file_checks_in_order
      [where env = posix_env and path = "''/etc/ssl/private/open.key''"
        and buf = "\<lparr>st_mode = 33188, st_uid = 0\<rparr>" and strict = False
        and s = fresh_state]
    by (simp add: ev)
  moreover have "check_ssl_key_file_permissions windows_env ''/home/alice/alice.key'' False
      fresh_state = (Returned True, fresh_state)"
    using key_file_checks_in_order
      [where env = windows_env and path = "''/home/alice/alice.key''"
        and buf = "\<lparr>st_mode = 33152, st_uid = 1000\<rparr>" and strict = False
        and s = fresh_state]
    by (simp add: ev)
  moreover have "fst (check_ssl_key_file_permissions posix_env ''/var/lib/pgsql/server.key'' True
      fresh_state) = Returned True"
    using key_file_checks_in_order
      [where env = posix_env and path = "''/var/lib/pgsql/server.key''" and strict = True
        and s = fresh_state]
    by (simp add: ev)
  ultimately show ?thesis by simp
qed

text \<open>
  C6 with the permission check on every platform does not hold on a build for Windows or
  Cygwin: the file below is regular and owned by root, its mode 0644 lets others read it,
  so it grants access that the third check forbids; the function returns true all the
  same, because that check is not compiled there.
\<close>

theorem windows_build_accepts_world_readable_key_counterexample:
  "stat windows_env ''/etc/ssl/private/open.key'' = Inr \<lparr>st_mode = 33188, st_uid = 0\<rparr> \<and>
   S_ISREG 33188 \<and>
   owner_trusted windows_env \<lparr>st_mode = 33188, st_uid = 0\<rparr> \<and>
   group_world_access windows_env \<lparr>st_mode = 33188, st_uid = 0\<rparr> \<and>
   check_ssl_key_file_permissions windows_env ''/etc/ssl/private/open.key'' False fresh_state =
     (Returned True, fresh_state)"
  by (simp add: windows_env_def sample_files_def S_ISREG_def S_IFMT_def S_IFREG_def
      owner_trusted_def group_world_access_def mask_root check_unfold)

section \<open>The retry loop: proofs\<close>

lemma passes_same [simp]: "passes body i i = []"
  by (simp add: passes_def)

lemma passes_Suc: "i \<le> k \<Longrightarrow> passes body i (Suc k) = passes body i k @ acts_of (body k)"
  by (simp add: passes_def)

lemma passes_first: "i < k \<Longrightarrow> passes body i k = acts_of (body i) @ passes body (Suc i) k"
  by (simp add: passes_def upt_conv_Cons)

lemma passes_empty: "k \<le> i \<Longrightarrow> passes body i k = []"
  by (simp add: passes_def)

lemma set_passes: "set (passes body i k) = (\<Union>j\<in>{i..<k}. set (acts_of (body j)))"
  by (simp add: passes_def)

lemma retry_loop_Done:
  "body k = Done out acts \<Longrightarrow> retry_loop body k tr = Some (out, tr @ acts)"
  by (subst retry_loop.simps) simp

lemma retry_loop_Retry:
  "is_retry (body k) \<Longrightarrow>
   retry_loop body k tr = retry_loop body (Suc k) (tr @ acts_of (body k))"
  by (subst retry_loop.simps) (simp add: is_retry_def acts_of_def split: step.splits)

text \<open>As long as the passes go round again, the loop is where they leave it.\<close>

lemma retry_loop_unroll:
  "i \<le> k \<Longrightarrow> (\<forall>j. i \<le> j \<and> j < k \<longrightarrow> is_retry (body j)) \<Longrightarrow>
   retry_loop body i tr = retry_loop body k (tr @ passes body i k)"
proof (induction k)
  case 0
  then show ?case by simp
next
  case (Suc k)
  show ?case
  proof (cases "i = Suc k")
    case True
    then show ?thesis by simp
  next
    case False
    with Suc.prems have ik: "i \<le> k" by simp
    from Suc.prems have "\<forall>j. i \<le> j \<and> j < k \<longrightarrow> is_retry (body j)" by simp
    with Suc.IH ik have "retry_loop body i tr = retry_loop body k (tr @ passes body i k)"
      by simp
    moreover from Suc.prems ik have "is_retry (body k)" by simp
    ultimately show ?thesis using ik by (simp add: retry_loop_Retry passes_Suc)
  qed
qed

text \<open>A call that ends, ends in some pass \<open>k\<close>, after \<open>k\<close> passes that went round again.\<close>

lemma retry_loop_SomeD:
  "retry_loop body i tr = Some y \<Longrightarrow>
   \<exists>k acts. i \<le> k \<and> (\<forall>j. i \<le> j \<and> j < k \<longrightarrow> is_retry (body j)) \<and>
      body k = Done (fst y) acts \<and> snd y = tr @ passes body i k @ acts"
proof (induction body i tr y rule: retry_loop.raw_induct [rotated, consumes 1])
  case (1 loop body i tr y)
  show ?case
  proof (cases "body i")
    case (Done out acts)
    with 1(2) have "y = (out, tr @ acts)" by simp
    moreover have "\<forall>j. i \<le> j \<and> j < i \<longrightarrow> is_retry (body j)" by auto
    ultimately show ?thesis using Done by (intro exI [of _ i] exI [of _ acts]) simp
  next
    case (Retry acts)
    with 1(2) have "loop body (Suc i) (tr @ acts) = Some y" by simp
    from 1(1) [OF this] obtain k where "\<exists>acts'. Suc i \<le> k \<and>
      (\<forall>j. Suc i \<le> j \<and> j < k \<longrightarrow> is_retry (body j)) \<and>
      body k = Done (fst y) acts' \<and> snd y = (tr @ acts) @ passes body (Suc i) k @ acts'" ..
    then obtain acts' where "Suc i \<le> k \<and>
      (\<forall>j. Suc i \<le> j \<and> j < k \<longrightarrow> is_retry (body j)) \<and>
      body k = Done (fst y) acts' \<and> snd y = (tr @ acts) @ passes body (Suc i) k @ acts'" ..
    then have k: "Suc i \<le> k"
      "\<forall>j. Suc i \<le> j \<and> j < k \<longrightarrow> is_retry (body j)"
      "body k = Done (fst y) acts'" "snd y = (tr @ acts) @ passes body (Suc i) k @ acts'"
      by simp_all
    have r: "is_retry (body i)" using Retry by (simp add: is_retry_def)
    have "\<forall>j. i \<le> j \<and> j < k \<longrightarrow> is_retry (body j)"
    proof (intro allI impI)
      fix j assume j: "i \<le> j \<and> j < k"
      show "is_retry (body j)"
      proof (cases "j = i")
        case True
        then show ?thesis using r by simp
      next
        case False
        with j have "Suc i \<le> j \<and> j < k" by arith
        with k(2) show ?thesis by blast
      qed
    qed
    moreover have "snd y = tr @ passes body i k @ acts'"
      using k(1,4) Retry by (simp add: passes_first acts_of_def)
    moreover have "i \<le> k" using k(1) by simp
    ultimately show ?thesis using k(3) by (intro exI [of _ k] exI [of _ acts']) simp
  qed
qed

text \<open>A run from the first pass, in the form the proofs below use.\<close>

lemma retry_loop_run:
  assumes "retry_loop body 0 [] = Some (out, tr)"
  obtains k acts where "\<forall>j<k. is_retry (body j)" "body k = Done out acts"
    "tr = passes body 0 k @ acts" "tr = passes body 0 (Suc k)"
proof -
  from retry_loop_SomeD [OF assms] obtain k acts where
    k: "\<forall>j. 0 \<le> j \<and> j < k \<longrightarrow> is_retry (body j)" "body k = Done out acts"
      "tr = passes body 0 k @ acts"
    by auto
  have "acts_of (body k) = acts" using k(2) by (simp add: acts_of_def)
  then have "tr = passes body 0 (Suc k)" using k(3) by (simp add: passes_Suc)
  with k that show thesis by simp
qed



lemma count_passes_eq:
  "(\<And>j. i \<le> j \<Longrightarrow> j < k \<Longrightarrow>
      count_list (acts_of (body j)) x = length (filter P (acts_of (body j)))) \<Longrightarrow>
   count_list (passes body i k) x = length (filter P (passes body i k))"
proof (induction k)
  case 0
  then show ?case by (simp add: passes_empty)
next
  case (Suc k)
  show ?case
  proof (cases "i \<le> k")
    case True
    with Suc show ?thesis by (simp add: passes_Suc)
  next
    case False
    then show ?thesis by (simp add: passes_empty)
  qed
qed

lemma count_passes_zero:
  "(\<And>j. i \<le> j \<Longrightarrow> j < k \<Longrightarrow> count_list (acts_of (body j)) x = 0) \<Longrightarrow>
   count_list (passes body i k) x = 0"
proof (induction k)
  case 0
  then show ?case by (simp add: passes_empty)
next
  case (Suc k)
  show ?case
  proof (cases "i \<le> k")
    case True
    with Suc show ?thesis by (simp add: passes_Suc)
  next
    case False
    then show ?thesis by (simp add: passes_empty)
  qed
qed


section \<open>One pass: proofs\<close>

lemma secure_call_loop:
  "secure_call d env port p len = retry_loop (call_step d env port p len) 0 []"
proof -
  have "call_step Reading env port p len = read_step env port p len"
    "call_step Writing env port p len = write_step env port p len"
    by (simp_all add: call_step_def fun_eq_iff)
  then show ?thesis
    by (cases d) (simp_all add: secure_call_def secure_read_def secure_write_def)
qed

text \<open>Both functions, one pass, in one equation.\<close>

lemma call_step_unfold:
  "call_step d env port p len i =
     (if must_wait env port (attempt_of d env port p len i) then
        (if USE_ASSERT_CHECKING env \<and> waitfor (attempt_of d env port p len i) = 0 then
           Done TrapAssert [call (attempt_of d env port p len i)]
         else if wait_result env i AND WL_POSTMASTER_DEATH env \<noteq> 0 then
           Done ProcExit
             [call (attempt_of d env port p len i),
              ModifyWaitEvent (waitfor (attempt_of d env port p len i)),
              WaitEventSetWait (wait_info d) (wait_result env i),
              Ereport postmaster_exit]
         else if wait_result env i AND WL_LATCH_SET env \<noteq> 0 then
           (if interrupt_returns env i True then
              Retry
                [call (attempt_of d env port p len i),
                 ModifyWaitEvent (waitfor (attempt_of d env port p len i)),
                 WaitEventSetWait (wait_info d) (wait_result env i),
                 ResetLatch, interrupt_action d True]
            else
              Done NonLocalExit
                [call (attempt_of d env port p len i),
                 ModifyWaitEvent (waitfor (attempt_of d env port p len i)),
                 WaitEventSetWait (wait_info d) (wait_result env i),
                 ResetLatch, interrupt_action d True])
         else
           Retry
             [call (attempt_of d env port p len i),
              ModifyWaitEvent (waitfor (attempt_of d env port p len i)),
              WaitEventSetWait (wait_info d) (wait_result env i)])
      else if interrupt_returns env i False then
        Done (Returned (n (attempt_of d env port p len i)))
          [call (attempt_of d env port p len i), interrupt_action d False]
      else
        Done NonLocalExit
          [call (attempt_of d env port p len i), interrupt_action d False])"
  by (cases d)
    (simp_all add: call_step_def read_step_def write_step_def read_wait_def write_wait_def
      attempt_of_def interrupt_action_def wait_info_def)

text \<open>The transport call of a pass and what it leaves in the local variables.\<close>

lemma attempt_plain:
  assumes "\<not> encrypted env port"
  shows "waitfor (attempt_of d env port p len i) = socket_direction d env"
  using assms
  by (cases d)
    (auto simp add: attempt_of_def read_attempt_def write_attempt_def encrypted_def
      socket_direction_def secure_raw_read_def secure_raw_write_def split: prod.splits)

lemma attempt_encrypted:
  assumes "encrypted env port" and "tls_result d env i = (r, e, w)"
  shows "n (attempt_of d env port p len i) = r"
    and "errno (attempt_of d env port p len i) = e"
    and "waitfor (attempt_of d env port p len i) = reported_direction w"
  using assms
  by (cases d;
      simp add: attempt_of_def read_attempt_def write_attempt_def encrypted_def
        tls_result_def reported_direction_def)+

lemma attempt_request:
  "transport_request d env port p len (call (attempt_of d env port p len i))"
  by (cases d)
    (simp_all add: attempt_of_def read_attempt_def write_attempt_def encrypted_def
      transport_request_def secure_raw_read_def secure_raw_write_def split: prod.splits)

lemma request_is_call: "transport_request d env port p len c \<Longrightarrow> transport_call c"
  by (cases c) (simp_all add: transport_request_def transport_call_def)

lemma attempt_call: "transport_call (call (attempt_of d env port p len i))"
  using attempt_request by (rule request_is_call)

lemma transport_call_simps [simp]:
  "\<not> transport_call (ModifyWaitEvent w)"
  "\<not> transport_call (WaitEventSetWait info ev)"
  "\<not> transport_call ResetLatch"
  "\<not> transport_call (Ereport r)"
  "\<not> transport_call (interrupt_action d b)"
  by (simp_all add: transport_call_def interrupt_action_def split: direction.splits)

lemma transport_call_other:
  assumes "transport_call c"
  shows "c \<noteq> ModifyWaitEvent w" "c \<noteq> WaitEventSetWait info ev" "c \<noteq> ResetLatch"
    "c \<noteq> Ereport r" "c \<noteq> interrupt_action d b" "\<not> is_wait c" "\<not> latch_wake env c"
    "ModifyWaitEvent w \<noteq> c" "WaitEventSetWait info ev \<noteq> c" "ResetLatch \<noteq> c"
    "Ereport r \<noteq> c" "interrupt_action d b \<noteq> c"
  using assms
  by (cases c; simp add: transport_call_def interrupt_action_def is_wait_def latch_wake_def
      split: direction.splits)+

lemmas attempt_call_other = transport_call_other [OF attempt_call]

lemma interrupt_action_simps [simp]:
  "interrupt_action d b \<noteq> ModifyWaitEvent w"
  "interrupt_action d b \<noteq> WaitEventSetWait info ev"
  "interrupt_action d b \<noteq> ResetLatch"
  "ResetLatch \<noteq> interrupt_action d b"
  "interrupt_action d b \<noteq> Ereport r"
  "ModifyWaitEvent w \<noteq> interrupt_action d b"
  "WaitEventSetWait info ev \<noteq> interrupt_action d b"
  "Ereport r \<noteq> interrupt_action d b"
  "\<not> is_wait (interrupt_action d b)"
  "\<not> latch_wake env (interrupt_action d b)"
  "interrupt_action d b = interrupt_action d b' \<longleftrightarrow> b = b'"
  by (cases d; simp add: interrupt_action_def is_wait_def latch_wake_def)+

lemma is_wait_simps [simp]:
  "\<not> is_wait (ModifyWaitEvent w)" "is_wait (WaitEventSetWait info ev)"
  "\<not> is_wait ResetLatch" "\<not> is_wait (Ereport r)"
  by (simp_all add: is_wait_def)

lemma latch_wake_simps [simp]:
  "\<not> latch_wake env (ModifyWaitEvent w)"
  "latch_wake env (WaitEventSetWait info ev) \<longleftrightarrow>
     ev AND WL_POSTMASTER_DEATH env = 0 \<and> ev AND WL_LATCH_SET env \<noteq> 0"
  "\<not> latch_wake env ResetLatch" "\<not> latch_wake env (Ereport r)"
  by (simp_all add: latch_wake_def)

lemma must_wait_iff: "must_wait env port a \<longleftrightarrow> would_block env a \<and> \<not> noblock port"
  by (auto simp add: must_wait_def would_block_def)




lemma pass_register:
  assumes "ModifyWaitEvent w \<in> set (acts_of (call_step d env port p len i))"
  shows "must_wait env port (attempt_of d env port p len i) \<and>
         w = waitfor (attempt_of d env port p len i)"
  using assms attempt_call_other
  by (auto simp add: call_step_unfold acts_of_def split: if_splits)

lemma pass_wait_death:
  assumes "WaitEventSetWait info ev \<in> set (acts_of (call_step d env port p len i))"
    and "ev AND WL_POSTMASTER_DEATH env \<noteq> 0"
  shows "\<exists>pre. call_step d env port p len i =
           Done ProcExit (pre @ [WaitEventSetWait info ev, Ereport postmaster_exit])"
proof -
  let ?a = "attempt_of d env port p len i"
  have "call_step d env port p len i =
      Done ProcExit ([call ?a, ModifyWaitEvent (waitfor ?a)] @
        [WaitEventSetWait info ev, Ereport postmaster_exit])"
    using assms attempt_call_other
    by (auto simp add: call_step_unfold acts_of_def split: if_splits)
  then show ?thesis by blast
qed

lemma pass_latch_counts:
  "count_list (acts_of (call_step d env port p len i)) (interrupt_action d True) =
     length (filter (latch_wake env) (acts_of (call_step d env port p len i)))"
  "count_list (acts_of (call_step d env port p len i)) ResetLatch =
     length (filter (latch_wake env) (acts_of (call_step d env port p len i)))"
  using attempt_call_other
  by (simp_all add: call_step_unfold acts_of_def)

lemma retry_pass_no_final_interrupt:
  assumes "is_retry (call_step d env port p len i)"
  shows "count_list (acts_of (call_step d env port p len i)) (interrupt_action d False) = 0"
  using assms attempt_call_other
  by (simp add: call_step_unfold is_retry_def acts_of_def split: if_splits)

lemma last_pass_final_interrupt:
  assumes "call_step d env port p len i = Done out acts"
  shows "count_list acts (interrupt_action d False) \<le> 1"
    and "out = Returned r \<Longrightarrow>
         r = n (attempt_of d env port p len i) \<and>
         \<not> must_wait env port (attempt_of d env port p len i) \<and>
         acts = [call (attempt_of d env port p len i), interrupt_action d False]"
  using assms attempt_call_other
  by (auto simp add: call_step_unfold split: if_splits)

lemma pass_trap:
  assumes "call_step d env port p len i = Done TrapAssert acts"
  shows "must_wait env port (attempt_of d env port p len i) \<and>
         USE_ASSERT_CHECKING env \<and> waitfor (attempt_of d env port p len i) = 0"
  using assms by (auto simp add: call_step_unfold split: if_splits)





section \<open>A whole call: proofs\<close>

lemma secure_call_run:
  assumes "secure_call d env port p len = Some (out, tr)"
  obtains k acts where "\<forall>j<k. is_retry (call_step d env port p len j)"
    "call_step d env port p len k = Done out acts"
    "tr = passes (call_step d env port p len) 0 k @ acts"
    "tr = passes (call_step d env port p len) 0 (Suc k)"
  using assms retry_loop_run [of "call_step d env port p len" out tr]
  by (simp add: secure_call_loop) blast

lemma secure_call_ends_at:
  assumes "\<forall>j<k. is_retry (call_step d env port p len j)"
    and "call_step d env port p len k = Done out acts"
  shows "secure_call d env port p len =
     Some (out, passes (call_step d env port p len) 0 k @ acts)"
proof -
  have "retry_loop (call_step d env port p len) 0 [] =
      retry_loop (call_step d env port p len) k ([] @ passes (call_step d env port p len) 0 k)"
    using assms(1) by (intro retry_loop_unroll) simp_all
  then show ?thesis using assms(2) by (simp add: secure_call_loop retry_loop_Done)
qed

lemma trace_member:
  assumes "secure_call d env port p len = Some (out, tr)" and "x \<in> set tr"
  obtains j where "x \<in> set (acts_of (call_step d env port p len j))"
proof -
  from assms(1) obtain k where "tr = passes (call_step d env port p len) 0 (Suc k)"
    by (rule secure_call_run)
  with assms(2) that show thesis by (auto simp add: set_passes)
qed

text \<open>A call whose every pass goes round again never ends.\<close>

lemma secure_call_never_ends:
  assumes "\<forall>j. is_retry (call_step d env port p len j)"
  shows "secure_call d env port p len = None"
proof (cases "secure_call d env port p len")
  case None
  then show ?thesis .
next
  case (Some y)
  then have "secure_call d env port p len = Some (fst y, snd y)" by simp
  then obtain k acts where "call_step d env port p len k = Done (fst y) acts"
    by (rule secure_call_run)
  with assms have False by (auto simp add: is_retry_def split: step.splits)
  then show ?thesis ..
qed

lemmas sample_io_defs = sample_env_def sample_raw_def sample_tls_def sample_wait_def
  sample_interrupt_def plain_port_def tls_port_def nonblocking_port_def orphan_env_def
  orphan_wait_def

lemmas io_defs = secure_call_def secure_read_def secure_write_def read_step_def write_step_def
  read_attempt_def write_attempt_def read_wait_def write_wait_def must_wait_def
  secure_raw_read_def secure_raw_write_def

text \<open>The sample calls, run.\<close>

lemma sample_plain_read:
  "secure_call Reading sample_env plain_port 4096 100 =
     Some (Returned 5,
       [Recv 7 4096 100 (- 1) 11, ModifyWaitEvent 2,
        WaitEventSetWait WAIT_EVENT_CLIENT_READ 1, ResetLatch,
        ProcessClientReadInterrupt True,
        Recv 7 4096 100 (- 1) 11, ModifyWaitEvent 2,
        WaitEventSetWait WAIT_EVENT_CLIENT_READ 6,
        Recv 7 4096 100 5 0, ProcessClientReadInterrupt False])"
  by (simp add: io_defs sample_io_defs retry_loop.simps)

lemma sample_tls_read:
  "secure_call Reading sample_env tls_port 4096 100 =
     Some (Returned 7,
       [Be_tls_read 4096 100 (- 1) 11 (Some 4), ModifyWaitEvent 4,
        WaitEventSetWait WAIT_EVENT_CLIENT_READ 1, ResetLatch,
        ProcessClientReadInterrupt True,
        Be_tls_read 4096 100 (- 1) 11 (Some 4), ModifyWaitEvent 4,
        WaitEventSetWait WAIT_EVENT_CLIENT_READ 6,
        Be_tls_read 4096 100 7 0 None, ProcessClientReadInterrupt False])"
  by (simp add: io_defs sample_io_defs retry_loop.simps)

lemma sample_orphan_write:
  "secure_call Writing orphan_env tls_port 4096 100 =
     Some (ProcExit,
       [Be_tls_write 4096 100 (- 1) 11 (Some 4), ModifyWaitEvent 4,
        WaitEventSetWait WAIT_EVENT_CLIENT_WRITE 1, ResetLatch,
        ProcessClientWriteInterrupt True,
        Be_tls_write 4096 100 (- 1) 11 (Some 4), ModifyWaitEvent 4,
        WaitEventSetWait WAIT_EVENT_CLIENT_WRITE 16,
        Ereport postmaster_exit])"
  by (simp add: io_defs sample_io_defs retry_loop.simps)

lemma sample_nonblocking_write:
  "secure_call Writing sample_env nonblocking_port 4096 100 =
     Some (Returned (- 1), [Send 7 4096 100 (- 1) 11, ProcessClientWriteInterrupt False])"
  by (simp add: io_defs sample_io_defs retry_loop.simps)





text \<open>
  C3. A wait that reports the death of the postmaster is the last thing but one the
  process does: the next action is the report at level FATAL with
  \<^verbatim>\<open>ERRCODE_ADMIN_SHUTDOWN\<close>, and the call hands nothing back. Conversely, whenever a
  pass gets as far as the wait and the wait reports the death, the call ends so.
\<close>

theorem postmaster_death_ends_the_process:
  "(secure_call d env port p len = Some (out, tr) \<and>
      WaitEventSetWait info ev \<in> set tr \<and> ev AND WL_POSTMASTER_DEATH env \<noteq> 0 \<longrightarrow>
      out = ProcExit \<and>
      (\<exists>pre. tr = pre @ [WaitEventSetWait info ev, Ereport postmaster_exit])) \<and>
   ((\<forall>j<k. is_retry (call_step d env port p len j)) \<and>
      reaches_wait env port (attempt_of d env port p len k) \<and>
      wait_result env k AND WL_POSTMASTER_DEATH env \<noteq> 0 \<longrightarrow>
      (\<exists>pre. secure_call d env port p len =
         Some (ProcExit,
           pre @ [WaitEventSetWait (wait_info d) (wait_result env k),
                  Ereport postmaster_exit]))) \<and>
   level postmaster_exit = FATAL \<and> code postmaster_exit = ERRCODE_ADMIN_SHUTDOWN"
proof (intro conjI impI)
  assume h: "secure_call d env port p len = Some (out, tr) \<and>
      WaitEventSetWait info ev \<in> set tr \<and> ev AND WL_POSTMASTER_DEATH env \<noteq> 0"
  let ?step = "call_step d env port p len"
  from h obtain k acts where k: "\<forall>j<k. is_retry (?step j)" "?step k = Done out acts"
    "tr = passes ?step 0 k @ acts" "tr = passes ?step 0 (Suc k)"
    by (blast elim: secure_call_run)
  from h k(4) obtain j where j: "j < Suc k" "WaitEventSetWait info ev \<in> set (acts_of (?step j))"
    by (auto simp add: set_passes)
  from pass_wait_death [OF j(2)] h obtain pre where
    pre: "?step j = Done ProcExit (pre @ [WaitEventSetWait info ev, Ereport postmaster_exit])"
    by blast
  then have "\<not> is_retry (?step j)" by (simp add: is_retry_def)
  with k(1) j(1) have "j = k" by (cases "j < k") auto
  with pre k(2) have "out = ProcExit"
    "acts = pre @ [WaitEventSetWait info ev, Ereport postmaster_exit]"
    by simp_all
  then have "out = ProcExit"
    "tr = (passes ?step 0 k @ pre) @ [WaitEventSetWait info ev, Ereport postmaster_exit]"
    using k(3) by simp_all
  then show "out = ProcExit"
    "\<exists>pre. tr = pre @ [WaitEventSetWait info ev, Ereport postmaster_exit]"
    by blast+
next
  assume h: "(\<forall>j<k. is_retry (call_step d env port p len j)) \<and>
      reaches_wait env port (attempt_of d env port p len k) \<and>
      wait_result env k AND WL_POSTMASTER_DEATH env \<noteq> 0"
  let ?a = "attempt_of d env port p len k"
  from h have "call_step d env port p len k =
      Done ProcExit ([call ?a, ModifyWaitEvent (waitfor ?a)] @
        [WaitEventSetWait (wait_info d) (wait_result env k), Ereport postmaster_exit])"
    by (auto simp add: call_step_unfold reaches_wait_def)
  with h have "secure_call d env port p len =
      Some (ProcExit, passes (call_step d env port p len) 0 k @
        ([call ?a, ModifyWaitEvent (waitfor ?a)] @
        [WaitEventSetWait (wait_info d) (wait_result env k), Ereport postmaster_exit]))"
    by (intro secure_call_ends_at) simp_all
  then have "secure_call d env port p len =
      Some (ProcExit, (passes (call_step d env port p len) 0 k @
        [call ?a, ModifyWaitEvent (waitfor ?a)]) @
        [WaitEventSetWait (wait_info d) (wait_result env k), Ereport postmaster_exit])"
    by simp
  then show "\<exists>pre. secure_call d env port p len =
         Some (ProcExit,
           pre @ [WaitEventSetWait (wait_info d) (wait_result env k),
                  Ereport postmaster_exit])"
    by blast
qed (simp_all add: postmaster_exit_def)

theorem postmaster_death_ends_the_process_witness:
  "(\<exists>pre. secure_call Writing orphan_env tls_port 4096 100 =
      Some (ProcExit,
        pre @ [WaitEventSetWait WAIT_EVENT_CLIENT_WRITE 16, Ereport postmaster_exit])) \<and>
   is_retry (call_step Writing orphan_env tls_port 4096 100 0) \<and>
   reaches_wait orphan_env tls_port (attempt_of Writing orphan_env tls_port 4096 100 1) \<and>
   wait_result orphan_env 1 AND WL_POSTMASTER_DEATH orphan_env \<noteq> 0"
proof -
  have a: "\<And>i. attempt_of Writing orphan_env tls_port 4096 100 i =
      (if i < 2
       then \<lparr>n = - 1, errno = 11, waitfor = 4, call = Be_tls_write 4096 100 (- 1) 11 (Some 4)\<rparr>
       else \<lparr>n = 7, errno = 0, waitfor = 0, call = Be_tls_write 4096 100 7 0 None\<rparr>)"
    by (simp add: attempt_of_def write_attempt_def sample_io_defs)
  have r0: "is_retry (call_step Writing orphan_env tls_port 4096 100 0)"
    by (simp add: call_step_unfold a must_wait_def is_retry_def) (simp add: sample_io_defs)
  have w1: "reaches_wait orphan_env tls_port (attempt_of Writing orphan_env tls_port 4096 100 1)"
    by (simp add: reaches_wait_def a must_wait_def) (simp add: sample_io_defs)
  have d1: "wait_result orphan_env 1 AND WL_POSTMASTER_DEATH orphan_env \<noteq> 0"
    "wait_result orphan_env 1 = 16"
    by (simp_all add: sample_io_defs)
  have "\<forall>j<1. is_retry (call_step Writing orphan_env tls_port 4096 100 j)"
    using r0 by simp
  with postmaster_death_ends_the_process
    [where d = Writing and env = orphan_env and port = tls_port and p = 4096 and len = 100
      and k = 1] w1 d1(1)
  have "\<exists>pre. secure_call Writing orphan_env tls_port 4096 100 =
         Some (ProcExit,
           pre @ [WaitEventSetWait (wait_info Writing) (wait_result orphan_env 1),
                  Ereport postmaster_exit])"
    by blast
  then show ?thesis using r0 w1 d1 by (simp add: wait_info_def)
qed

text \<open>
  C7. Every direction registered with the wait set is the value of \<^verbatim>\<open>waitfor\<close> after a
  transport call that reported would-block: on a plain connection the flag that matches
  the call, on an encrypted connection what the provider stored through its
  out-parameter (zero when it stored nothing). A pass that gets as far as the wait
  registers that value right after the transport call and right before the wait.
\<close>

theorem registered_direction_is_waitfor:
  "(secure_call d env port p len = Some (out, tr) \<and> ModifyWaitEvent w \<in> set tr \<longrightarrow>
      (\<exists>j. would_block env (attempt_of d env port p len j) \<and>
            w = waitfor (attempt_of d env port p len j)) \<and>
      (if encrypted env port
       then \<exists>j r e v. tls_result d env j = (r, e, v) \<and> r < 0 \<and>
              (e = EWOULDBLOCK env \<or> e = EAGAIN env) \<and> w = reported_direction v
       else w = socket_direction d env)) \<and>
   (reaches_wait env port (attempt_of d env port p len i) \<longrightarrow>
      (\<exists>rest. acts_of (call_step d env port p len i) =
         call (attempt_of d env port p len i) #
         ModifyWaitEvent (waitfor (attempt_of d env port p len i)) #
         WaitEventSetWait (wait_info d) (wait_result env i) # rest)) \<and>
   (secure_call d env port p len = Some (out, tr) \<longrightarrow>
      (\<exists>k. tr = passes (call_step d env port p len) 0 (Suc k)))"
proof (intro conjI impI)
  assume h: "secure_call d env port p len = Some (out, tr) \<and> ModifyWaitEvent w \<in> set tr"
  then obtain j where "ModifyWaitEvent w \<in> set (acts_of (call_step d env port p len j))"
    by (blast elim: trace_member)
  from pass_register [OF this]
  have j: "would_block env (attempt_of d env port p len j)"
    "w = waitfor (attempt_of d env port p len j)"
    by (simp_all add: must_wait_iff)
  then show "\<exists>j. would_block env (attempt_of d env port p len j) \<and>
            w = waitfor (attempt_of d env port p len j)"
    by blast
  show "if encrypted env port
       then \<exists>j r e v. tls_result d env j = (r, e, v) \<and> r < 0 \<and>
              (e = EWOULDBLOCK env \<or> e = EAGAIN env) \<and> w = reported_direction v
       else w = socket_direction d env"
  proof (cases "encrypted env port")
    case True
    obtain r e v where t: "tls_result d env j = (r, e, v)" by (cases "tls_result d env j")
    from attempt_encrypted [OF True t, of p len] j
    have "r < 0 \<and> (e = EWOULDBLOCK env \<or> e = EAGAIN env) \<and> w = reported_direction v"
      by (simp add: would_block_def)
    with t True show ?thesis by auto
  next
    case False
    with j(2) show ?thesis by (simp add: attempt_plain)
  qed
next
  assume "reaches_wait env port (attempt_of d env port p len i)"
  then show "\<exists>rest. acts_of (call_step d env port p len i) =
         call (attempt_of d env port p len i) #
         ModifyWaitEvent (waitfor (attempt_of d env port p len i)) #
         WaitEventSetWait (wait_info d) (wait_result env i) # rest"
    by (auto simp add: reaches_wait_def call_step_unfold acts_of_def)
next
  assume "secure_call d env port p len = Some (out, tr)"
  then show "\<exists>k. tr = passes (call_step d env port p len) 0 (Suc k)"
    by (blast elim: secure_call_run)
qed

theorem registered_direction_is_waitfor_witness:
  "encrypted sample_env tls_port \<and>
   (\<exists>out tr. secure_call Reading sample_env tls_port 4096 100 = Some (out, tr) \<and>
      ModifyWaitEvent 4 \<in> set tr) \<and>
   (\<exists>j r e. tls_result Reading sample_env j = (r, e, Some 4) \<and> r < 0) \<and>
   socket_direction Reading sample_env = 2 \<and>
   WL_SOCKET_WRITEABLE sample_env = 4"
proof -
  have enc: "encrypted sample_env tls_port" by (simp add: encrypted_def sample_io_defs)
  have m: "ModifyWaitEvent 4 \<in> set
       [Be_tls_read 4096 100 (- 1) 11 (Some 4), ModifyWaitEvent 4,
        WaitEventSetWait WAIT_EVENT_CLIENT_READ 1, ResetLatch,
        ProcessClientReadInterrupt True,
        Be_tls_read 4096 100 (- 1) 11 (Some 4), ModifyWaitEvent 4,
        WaitEventSetWait WAIT_EVENT_CLIENT_READ 6,
        Be_tls_read 4096 100 7 0 None, ProcessClientReadInterrupt False]"
    by simp
  from registered_direction_is_waitfor
    [where d = Reading and env = sample_env and port = tls_port and p = 4096 and len = 100
      and w = 4, THEN conjunct1, rule_format, OF conjI, OF sample_tls_read m] enc
  obtain j r e v where v: "tls_result Reading sample_env j = (r, e, v)" "r < 0"
    "4 = reported_direction v"
    by auto
  have "v = Some 4"
    using v by (auto simp add: tls_result_def sample_io_defs split: if_splits)
  with v have "\<exists>j r e. tls_result Reading sample_env j = (r, e, Some 4) \<and> r < 0" by blast
  moreover have "socket_direction Reading sample_env = 2" "WL_SOCKET_WRITEABLE sample_env = 4"
    by (simp_all add: socket_direction_def sample_io_defs)
  ultimately show ?thesis using enc sample_tls_read m by simp
qed



text \<open>
  C9. In the trace of a call, \<^verbatim>\<open>ProcessClientReadInterrupt(true)\<close> (for a write,
  \<^verbatim>\<open>ProcessClientWriteInterrupt(true)\<close>) occurs as often as \<^verbatim>\<open>ResetLatch\<close>, and both
  as often as a wait came back with the latch set and the postmaster alive. Such a wait
  is no error: the pass resets the latch, processes the interrupts and goes round again.
  Interrupt processing with argument false occurs at most once, and when the call
  returns a value it occurs exactly once and is the last action.
\<close>

theorem interrupts_processed_once:
  "(secure_call d env port p len = Some (out, tr) \<longrightarrow>
      count_list tr (interrupt_action d True) = length (filter (latch_wake env) tr) \<and>
      count_list tr ResetLatch = length (filter (latch_wake env) tr) \<and>
      count_list tr (interrupt_action d False) \<le> 1 \<and>
      (\<forall>r. out = Returned r \<longrightarrow>
         count_list tr (interrupt_action d False) = 1 \<and>
         last tr = interrupt_action d False)) \<and>
   (reaches_wait env port (attempt_of d env port p len i) \<and>
      wait_result env i AND WL_POSTMASTER_DEATH env = 0 \<and>
      wait_result env i AND WL_LATCH_SET env \<noteq> 0 \<and> interrupt_returns env i True \<longrightarrow>
      call_step d env port p len i =
        Retry
          [call (attempt_of d env port p len i),
           ModifyWaitEvent (waitfor (attempt_of d env port p len i)),
           WaitEventSetWait (wait_info d) (wait_result env i),
           ResetLatch, interrupt_action d True])"
proof (intro conjI impI allI)
  assume run: "secure_call d env port p len = Some (out, tr)"
  let ?step = "call_step d env port p len"
  from run obtain k acts where k: "\<forall>j<k. is_retry (?step j)" "?step k = Done out acts"
    "tr = passes ?step 0 k @ acts" "tr = passes ?step 0 (Suc k)"
    by (rule secure_call_run)
  show "count_list tr (interrupt_action d True) = length (filter (latch_wake env) tr)"
    unfolding k(4) by (intro count_passes_eq pass_latch_counts)
  show "count_list tr ResetLatch = length (filter (latch_wake env) tr)"
    unfolding k(4) by (intro count_passes_eq pass_latch_counts)
  have z: "count_list (passes ?step 0 k) (interrupt_action d False) = 0"
    using k(1) by (intro count_passes_zero retry_pass_no_final_interrupt) simp
  from last_pass_final_interrupt(1) [OF k(2)] z
  show "count_list tr (interrupt_action d False) \<le> 1" by (simp add: k(3))
  fix r assume "out = Returned r"
  from last_pass_final_interrupt(2) [OF k(2) this]
  have "acts = [call (attempt_of d env port p len k), interrupt_action d False]" by simp
  with z attempt_call_other(5)
  show "count_list tr (interrupt_action d False) = 1" "last tr = interrupt_action d False"
    by (simp_all add: k(3))
next
  assume "reaches_wait env port (attempt_of d env port p len i) \<and>
      wait_result env i AND WL_POSTMASTER_DEATH env = 0 \<and>
      wait_result env i AND WL_LATCH_SET env \<noteq> 0 \<and> interrupt_returns env i True"
  then show "call_step d env port p len i =
        Retry
          [call (attempt_of d env port p len i),
           ModifyWaitEvent (waitfor (attempt_of d env port p len i)),
           WaitEventSetWait (wait_info d) (wait_result env i),
           ResetLatch, interrupt_action d True]"
    by (auto simp add: reaches_wait_def call_step_unfold)
qed

theorem interrupts_processed_once_witness:
  "(\<exists>tr. secure_call Reading sample_env plain_port 4096 100 = Some (Returned 5, tr) \<and>
      length (filter (latch_wake sample_env) tr) = 1 \<and>
      count_list tr (ProcessClientReadInterrupt True) = 1 \<and>
      count_list tr ResetLatch = 1 \<and>
      count_list tr (ProcessClientReadInterrupt False) = 1 \<and>
      last tr = ProcessClientReadInterrupt False)"
proof -
  let ?tr = "[Recv 7 4096 100 (- 1) 11, ModifyWaitEvent 2,
        WaitEventSetWait WAIT_EVENT_CLIENT_READ 1, ResetLatch,
        ProcessClientReadInterrupt True,
        Recv 7 4096 100 (- 1) 11, ModifyWaitEvent 2,
        WaitEventSetWait WAIT_EVENT_CLIENT_READ 6,
        Recv 7 4096 100 5 0, ProcessClientReadInterrupt False]"
  have l: "length (filter (latch_wake sample_env) ?tr) = 1"
    by (simp add: latch_wake_def sample_io_defs)
  from interrupts_processed_once
    [where d = Reading and env = sample_env and port = plain_port and p = 4096 and len = 100
      and out = "Returned 5" and tr = ?tr, THEN conjunct1, rule_format, OF sample_plain_read]
  have "count_list ?tr (interrupt_action Reading True) = length (filter (latch_wake sample_env) ?tr)"
    "count_list ?tr ResetLatch = length (filter (latch_wake sample_env) ?tr)"
    "count_list ?tr (interrupt_action Reading False) = 1"
    "last ?tr = interrupt_action Reading False"
    by blast+
  with l have "count_list ?tr (ProcessClientReadInterrupt True) = 1"
    "count_list ?tr ResetLatch = 1"
    "count_list ?tr (ProcessClientReadInterrupt False) = 1"
    "last ?tr = ProcessClientReadInterrupt False"
    by (simp_all add: interrupt_action_def)
  with l sample_plain_read show ?thesis by blast
qed

text \<open>
  C10. Provided the readiness flag that matches the call is not zero and, on an encrypted
  connection, the provider stores a direction that is not zero whenever it reports
  would-block, \<^verbatim>\<open>waitfor\<close> is not zero in any pass that takes the wait branch: the
  assertion does not trap and no zero direction is registered.
\<close>

theorem waitfor_is_set_before_the_wait:
  assumes "socket_direction d env \<noteq> 0"
    and "encrypted env port \<longrightarrow>
      (\<forall>j r e v. tls_result d env j = (r, e, v) \<and> r < 0 \<and>
         (e = EWOULDBLOCK env \<or> e = EAGAIN env) \<longrightarrow> reported_direction v \<noteq> 0)"
  shows
    "(must_wait env port (attempt_of d env port p len i) \<longrightarrow>
        waitfor (attempt_of d env port p len i) \<noteq> 0) \<and>
     secure_call d env port p len \<noteq> Some (TrapAssert, tr) \<and>
     (secure_call d env port p len = Some (out, tr) \<and> ModifyWaitEvent w \<in> set tr \<longrightarrow>
        w \<noteq> 0)"
proof -
  have nz: "waitfor (attempt_of d env port p len j) \<noteq> 0"
    if "must_wait env port (attempt_of d env port p len j)" for j
  proof (cases "encrypted env port")
    case True
    obtain r e v where t: "tls_result d env j = (r, e, v)" by (cases "tls_result d env j")
    from attempt_encrypted [OF True t, of p len] that
    have "r < 0 \<and> (e = EWOULDBLOCK env \<or> e = EAGAIN env)"
      by (simp add: must_wait_def)
    with assms(2) True t have "reported_direction v \<noteq> 0" by blast
    with attempt_encrypted(3) [OF True t, of p len] show ?thesis by simp
  next
    case False
    with assms(1) show ?thesis by (simp add: attempt_plain)
  qed
  have "secure_call d env port p len \<noteq> Some (TrapAssert, tr)"
  proof
    assume "secure_call d env port p len = Some (TrapAssert, tr)"
    then obtain k acts where "call_step d env port p len k = Done TrapAssert acts"
      by (rule secure_call_run)
    from pass_trap [OF this] nz [of k] show False by simp
  qed
  moreover have "w \<noteq> 0"
    if "secure_call d env port p len = Some (out, tr) \<and> ModifyWaitEvent w \<in> set tr"
  proof -
    from that obtain j where "ModifyWaitEvent w \<in> set (acts_of (call_step d env port p len j))"
      by (blast elim: trace_member)
    from pass_register [OF this] nz [of j] show ?thesis by simp
  qed
  ultimately show ?thesis using nz by blast
qed

theorem waitfor_is_set_before_the_wait_witness:
  "socket_direction Reading sample_env \<noteq> 0 \<and>
   USE_ASSERT_CHECKING sample_env \<and>
   must_wait sample_env tls_port (attempt_of Reading sample_env tls_port 4096 100 0) \<and>
   waitfor (attempt_of Reading sample_env tls_port 4096 100 0) \<noteq> 0 \<and>
   (\<exists>r tr. secure_call Reading sample_env tls_port 4096 100 = Some (Returned r, tr))"
proof -
  have s: "socket_direction Reading sample_env \<noteq> 0"
    by (simp add: socket_direction_def sample_io_defs)
  have t: "encrypted sample_env tls_port \<longrightarrow>
      (\<forall>j r e v. tls_result Reading sample_env j = (r, e, v) \<and> r < 0 \<and>
         (e = EWOULDBLOCK sample_env \<or> e = EAGAIN sample_env) \<longrightarrow> reported_direction v \<noteq> 0)"
    by (auto simp add: tls_result_def reported_direction_def sample_io_defs split: if_splits)
  have m: "must_wait sample_env tls_port (attempt_of Reading sample_env tls_port 4096 100 0)"
    by (simp add: must_wait_def attempt_of_def read_attempt_def sample_io_defs)
  from waitfor_is_set_before_the_wait [OF s t, of 4096 100 0] m
  have "waitfor (attempt_of Reading sample_env tls_port 4096 100 0) \<noteq> 0" by blast
  moreover have "USE_ASSERT_CHECKING sample_env" by (simp add: sample_io_defs)
  ultimately show ?thesis using s m sample_tls_read by blast
qed

end
